theory Spec2Isabelle
  imports Main "HOL-Library.Multiset"
begin

section \<open>Values and exceptions\<close>

text \<open>
  The program is a Python script (\<^verbatim>\<open>main.py\<close>) that reads commit pages from a remote
  API, collects them per repository and merges them into a warehouse table with one SQL
  statement. Python exceptions are values: a function that may raise returns
  \<open>py_error + 'a\<close>, with \<open>Inl\<close> the exception that propagates.
\<close>

datatype py_error =
    KeyError string
  | TypeError
  | ValueError string
  | FetchFailed string
  | SleepError int
  | ExternalError string

text \<open>
  \<open>FetchFailed c\<close> is \<^verbatim>\<open>Exception(f"Failed to fetch commit history: {response.content}")\<close>:
  the only datum interpolated into the message is the response content \<open>c\<close>.
  \<open>SleepError n\<close> is the OverflowError or OSError with which \<^verbatim>\<open>time.sleep(n)\<close> refuses a
  wait that the platform does not take. \<open>ExternalError\<close> stands for whatever a library
  call outside the script raises (the HTTP client, the warehouse connector).
\<close>

text \<open>What \<^verbatim>\<open>response.json()\<close> returns: a decoded JSON document.\<close>

datatype json =
    JNull
  | JBool bool
  | JNum int
  | JStr string
  | JArr "json list"
  | JObj "(string \<times> json) list"

text \<open>
  \<^verbatim>\<open>v[k]\<close> with a string key: a dict looks the key up and raises KeyError when it is
  missing; every other JSON value raises TypeError (a list or a string wants an integer
  index, \<^verbatim>\<open>None\<close>, numbers and booleans are not subscriptable).
\<close>

fun getitem :: "json \<Rightarrow> string \<Rightarrow> py_error + json" where
  "getitem (JObj kvs) k = (case map_of kvs k of None \<Rightarrow> Inl (KeyError k) | Some v \<Rightarrow> Inr v)"
| "getitem _ k = Inl TypeError"

text \<open>
  \<^verbatim>\<open>for commit in data\<close>: a list yields its elements, a dict its keys, a string its
  characters; the other JSON values are not iterable.
\<close>

fun py_iter :: "json \<Rightarrow> py_error + json list" where
  "py_iter (JArr xs) = Inr xs"
| "py_iter (JObj kvs) = Inr (map (\<lambda>kv. JStr (fst kv)) kvs)"
| "py_iter (JStr s) = Inr (map (\<lambda>c. JStr [c]) s)"
| "py_iter _ = Inl TypeError"

section \<open>The rate limiter\<close>

text \<open>
  \<^verbatim>\<open>int(s)\<close> on a string of Latin-1 text (header values are decoded so). The characters
  9 to 13 and 32, and the two Latin-1 spaces 133 and 160, are whitespace and may surround
  the number (the separators 28 to 31 are whitespace for \<^verbatim>\<open>str.isspace\<close> but not here);
  one sign is allowed; then come decimal digits, where single underscores may separate
  digits. A literal with more digits than the interpreter's limit
  (\<^verbatim>\<open>sys.int_max_str_digits\<close>, 4300 by default, 0 for no limit; the limit is not looked
  at up to 640 digits) is refused. Everything that is refused raises ValueError.
\<close>

definition is_space :: "char \<Rightarrow> bool" where
  "is_space c = ((of_char c :: nat) \<in> {9, 10, 11, 12, 13, 32, 133, 160})"

definition is_digit :: "char \<Rightarrow> bool" where
  "is_digit c = (48 \<le> (of_char c :: nat) \<and> (of_char c :: nat) \<le> 57)"

definition digit_val :: "char \<Rightarrow> int" where
  "digit_val c = int (of_char c) - 48"

definition strip :: "string \<Rightarrow> string" where
  "strip s = rev (dropWhile is_space (rev (dropWhile is_space s)))"

text \<open>
  \<open>digits_ok prev s\<close>: \<open>s\<close> continues a digit string whose previous character was a digit
  (\<open>prev = True\<close>) or was the start or an underscore (\<open>prev = False\<close>); the string must
  end on a digit.
\<close>

fun digits_ok :: "bool \<Rightarrow> string \<Rightarrow> bool" where
  "digits_ok prev [] = prev"
| "digits_ok prev (c # cs) =
     (if is_digit c then digits_ok True cs
      else if c = CHR ''_'' \<and> prev then digits_ok False cs
      else False)"

definition digits_value :: "string \<Rightarrow> int" where
  "digits_value s = foldl (\<lambda>a c. 10 * a + digit_val c) 0 (filter is_digit s)"

definition too_many_digits :: "nat \<Rightarrow> string \<Rightarrow> bool" where
  "too_many_digits max_str_digits body =
     (640 < length (filter is_digit body) \<and> 0 < max_str_digits
      \<and> max_str_digits < length (filter is_digit body))"

definition py_int :: "nat \<Rightarrow> string \<Rightarrow> py_error + int" where
  "py_int max_str_digits s =
     (let t = strip s;
          neg = (t \<noteq> [] \<and> hd t = CHR ''-'');
          body = (if t \<noteq> [] \<and> (hd t = CHR ''-'' \<or> hd t = CHR ''+'') then tl t else t)
      in if digits_ok False body \<and> \<not> too_many_digits max_str_digits body
         then Inr (if neg then - digits_value body else digits_value body)
         else Inl (ValueError s))"

text \<open>
  What the interpreter and the platform answer during one call of the limiter: \<open>now1\<close> is
  \<^verbatim>\<open>int(time.time())\<close> for the reading taken as the default of \<^verbatim>\<open>headers.get\<close>
  (evaluated whether or not the header is there), \<open>now2\<close> the one of the second reading,
  \<open>sleep_max\<close> the longest wait in seconds that \<^verbatim>\<open>time.sleep\<close> takes at that moment (it
  raises on a longer one, and always takes a wait of zero), \<open>int_max_str_digits\<close> the
  digit limit of \<^verbatim>\<open>int\<close>.
\<close>

record readings =
  now1 :: int
  now2 :: int
  sleep_max :: int
  int_max_str_digits :: nat

text \<open>
  \<^verbatim>\<open>wait_for_rate_limit(headers)\<close>. The header dictionary is an association list. The
  result is the number of seconds slept, or the exception that \<^verbatim>\<open>int\<close> or
  \<^verbatim>\<open>time.sleep\<close> raises.
\<close>

definition wait_for_rate_limit :: "(string \<times> string) list \<Rightarrow> readings \<Rightarrow> py_error + nat" where
  "wait_for_rate_limit headers rd =
     (case (case map_of headers ''X-RateLimit-Reset'' of
              None \<Rightarrow> Inr (now1 rd)
            | Some s \<Rightarrow> py_int (int_max_str_digits rd) s) of
        Inl e \<Rightarrow> Inl e
      | Inr reset_time \<Rightarrow>
          (let sleep_time = max 0 (reset_time - now2 rd)
           in if max 0 (sleep_max rd) < sleep_time then Inl (SleepError sleep_time)
              else Inr (nat sleep_time)))"

section \<open>Fetching one repository\<close>

record response =
  status_code :: nat
  headers :: "(string \<times> string) list"
  content :: string
  json_body :: "py_error + json"
  has_next :: bool

text \<open>
  \<open>json_body\<close> is what \<^verbatim>\<open>response.json()\<close> gives (it raises on a body that is not JSON),
  \<open>has_next\<close> is \<^verbatim>\<open>"next" in response.links\<close>.
\<close>

record commit_record =
  date :: json
  username :: json
  repo_name :: string

text \<open>
  One element of the comprehension of \<^verbatim>\<open>fetch_commit_history\<close>: the dict display
  evaluates \<^verbatim>\<open>commit["commit"]["author"]["date"]\<close> first, then
  \<^verbatim>\<open>commit["commit"]["author"]["name"]\<close>, then the f-string.
\<close>

definition author_field :: "json \<Rightarrow> string \<Rightarrow> py_error + json" where
  "author_field commit k =
     (case getitem commit ''commit'' of
        Inl e \<Rightarrow> Inl e
      | Inr c \<Rightarrow> (case getitem c ''author'' of
                   Inl e \<Rightarrow> Inl e
                 | Inr a \<Rightarrow> getitem a k))"

definition to_record :: "string \<Rightarrow> string \<Rightarrow> json \<Rightarrow> py_error + commit_record" where
  "to_record owner repo commit =
     (case author_field commit ''date'' of
        Inl e \<Rightarrow> Inl e
      | Inr d \<Rightarrow> (case author_field commit ''name'' of
                   Inl e \<Rightarrow> Inl e
                 | Inr n \<Rightarrow> Inr \<lparr>date = d, username = n, repo_name = owner @ ''/'' @ repo\<rparr>))"

fun map_raise :: "('a \<Rightarrow> py_error + 'b) \<Rightarrow> 'a list \<Rightarrow> py_error + 'b list" where
  "map_raise f [] = Inr []"
| "map_raise f (x # xs) =
     (case f x of
        Inl e \<Rightarrow> Inl e
      | Inr y \<Rightarrow> (case map_raise f xs of Inl e \<Rightarrow> Inl e | Inr ys \<Rightarrow> Inr (y # ys)))"

definition records_of :: "string \<Rightarrow> string \<Rightarrow> json \<Rightarrow> py_error + commit_record list" where
  "records_of owner repo data =
     (case py_iter data of
        Inl e \<Rightarrow> Inl e
      | Inr items \<Rightarrow> map_raise (to_record owner repo) items)"

text \<open>
  What the loop does that an observer of the network and of the clock sees: a request for
  a page, a call of the rate limiter on a response's headers that slept so many seconds,
  and the fixed one-second delay after it.
\<close>

datatype event =
    Request nat
  | RateLimitWait "(string \<times> string) list" nat
  | Delay nat

text \<open>
  The \<^verbatim>\<open>while True\<close> loop of \<^verbatim>\<open>fetch_commit_history\<close>. \<open>server i page\<close> is the outcome of
  the \<open>i\<close>-th \<^verbatim>\<open>requests.get\<close> of this call when it asks for \<open>page\<close> (the URL, the page
  size and the \<^verbatim>\<open>since\<close> date are fixed during a call); \<open>clock i\<close> are the readings of
  the limiter call that follows request \<open>i\<close>. The fixed delay of one second returns. The
  loop may run forever (a server that always answers 403, or always announces a next
  page): then the value is \<open>None\<close>.
\<close>

partial_function (option) fetch_pages ::
  "(nat \<Rightarrow> nat \<Rightarrow> py_error + response) \<Rightarrow> (nat \<Rightarrow> readings) \<Rightarrow> string \<Rightarrow> string \<Rightarrow>
   nat \<Rightarrow> nat \<Rightarrow> commit_record list \<Rightarrow> event list \<Rightarrow>
   (event list \<times> (py_error + commit_record list)) option" where
  "fetch_pages server clock owner repo i page commit_history tr =
     (case server i page of
        Inl e \<Rightarrow> Some (tr @ [Request page], Inl e)
      | Inr r \<Rightarrow>
          if status_code r = 403 then
            (case wait_for_rate_limit (headers r) (clock i) of
               Inl e \<Rightarrow> Some (tr @ [Request page], Inl e)
             | Inr s \<Rightarrow>
                 fetch_pages server clock owner repo (Suc i) page commit_history
                   (tr @ [Request page, RateLimitWait (headers r) s, Delay 1]))
          else if status_code r \<noteq> 200 then
            Some (tr @ [Request page], Inl (FetchFailed (content r)))
          else
            (case json_body r of
               Inl e \<Rightarrow> Some (tr @ [Request page], Inl e)
             | Inr data \<Rightarrow>
                 (case records_of owner repo data of
                    Inl e \<Rightarrow> Some (tr @ [Request page], Inl e)
                  | Inr recs \<Rightarrow>
                      if has_next r then
                        fetch_pages server clock owner repo (Suc i) (Suc page)
                          (commit_history @ recs) (tr @ [Request page])
                      else Some (tr @ [Request page], Inr (commit_history @ recs)))))"

declare fetch_pages.simps [code]

definition fetch_commit_history ::
  "(nat \<Rightarrow> nat \<Rightarrow> py_error + response) \<Rightarrow> (nat \<Rightarrow> readings) \<Rightarrow> string \<Rightarrow> string \<Rightarrow>
   (event list \<times> (py_error + commit_record list)) option" where
  "fetch_commit_history server clock owner repo = fetch_pages server clock owner repo 0 1 [] []"

text \<open>
  A synthetic paginated source, for stating that no page is lost: page \<open>p\<close> of \<open>pages\<close>
  (counted from 1) is answered with status 200, one commit object per (date, name) pair,
  and a \<^verbatim>\<open>next\<close> link exactly when a later page exists. A request beyond the last page,
  and the first page of an empty source, is an empty page without a \<^verbatim>\<open>next\<close> link.
\<close>

definition commit_json :: "json \<Rightarrow> json \<Rightarrow> json" where
  "commit_json d n =
     JObj [(''sha'', JNull),
           (''commit'',
            JObj [(''author'', JObj [(''name'', n), (''email'', JNull), (''date'', d)])])]"

definition page_response :: "(json \<times> json) list \<Rightarrow> bool \<Rightarrow> response" where
  "page_response items nxt =
     \<lparr>status_code = 200, headers = [], content = [],
      json_body = Inr (JArr (map (\<lambda>dn. commit_json (fst dn) (snd dn)) items)),
      has_next = nxt\<rparr>"

definition paged_source :: "(json \<times> json) list list \<Rightarrow> nat \<Rightarrow> nat \<Rightarrow> py_error + response" where
  "paged_source pages i page =
     Inr (page_response
            (if 1 \<le> page \<and> page \<le> length pages then pages ! (page - 1) else [])
            (page < length pages))"

definition record_of_pair :: "string \<Rightarrow> string \<Rightarrow> json \<times> json \<Rightarrow> commit_record" where
  "record_of_pair owner repo dn =
     \<lparr>date = fst dn, username = snd dn, repo_name = owner @ ''/'' @ repo\<rparr>"

text \<open>A response that carries nothing but a status and a body, for the examples.\<close>

definition plain_response :: "nat \<Rightarrow> string \<Rightarrow> response" where
  "plain_response st body =
     \<lparr>status_code = st, headers = [], content = body, json_body = Inl (ValueError body),
      has_next = False\<rparr>"

section \<open>The warehouse table and the merge statement\<close>

text \<open>
  A row of \<^verbatim>\<open>SCROLLSTATS_GIT_COMMITS\<close> and of its temporary copy. The three columns are
  declared without \<^verbatim>\<open>NOT NULL\<close>, so each holds a value or NULL (\<open>None\<close>); a
  \<^verbatim>\<open>TIMESTAMP_NTZ(9)\<close> is a count of nanoseconds. A table is the list of its rows, and
  \<^verbatim>\<open>INSERT\<close> appends.
\<close>

record row =
  DATE :: "int option"
  USERNAME :: "string option"
  REPO_NAME :: "string option"

type_synonym table = "row list"

text \<open>
  SQL comparison is three-valued: \<^verbatim>\<open>a = b\<close> is unknown (\<open>None\<close>) as soon as one side is
  NULL, \<^verbatim>\<open>AND\<close> is false when one side is false and unknown when neither is false and
  one is unknown; \<^verbatim>\<open>WHERE\<close> keeps a row only when its condition is true.
\<close>

fun sql_eq :: "'a option \<Rightarrow> 'a option \<Rightarrow> bool option" where
  "sql_eq (Some a) (Some b) = Some (a = b)"
| "sql_eq _ _ = None"

fun sql_and :: "bool option \<Rightarrow> bool option \<Rightarrow> bool option" where
  "sql_and (Some False) _ = Some False"
| "sql_and _ (Some False) = Some False"
| "sql_and (Some True) (Some True) = Some True"
| "sql_and _ _ = None"

definition key_match :: "row \<Rightarrow> row \<Rightarrow> bool option" where
  "key_match t s =
     sql_and (sql_and (sql_eq (DATE t) (DATE s)) (sql_eq (USERNAME t) (USERNAME s)))
             (sql_eq (REPO_NAME t) (REPO_NAME s))"

definition sql_exists :: "table \<Rightarrow> row \<Rightarrow> bool" where
  "sql_exists T s = list_ex (\<lambda>t. key_match t s = Some True) T"

text \<open>
  The merge statement
  \<^verbatim>\<open>INSERT INTO T SELECT * FROM TEMP WHERE NOT EXISTS (SELECT 1 FROM T WHERE ...)\<close>:
  the \<^verbatim>\<open>SELECT\<close> is evaluated on the table as it is before the statement, and its rows
  are then inserted.
\<close>

definition new_rows :: "table \<Rightarrow> row list \<Rightarrow> row list" where
  "new_rows T staged = filter (\<lambda>s. \<not> sql_exists T s) staged"

definition merge_query :: "table \<Rightarrow> row list \<Rightarrow> table" where
  "merge_query T staged = T @ new_rows T staged"

text \<open>
  The warehouse as \<^verbatim>\<open>increment_table\<close> meets it. Connecting (with opening the cursor),
  creating the temporary table, the merge statement and closing (cursor and connection)
  either raise or succeed. \<^verbatim>\<open>write_pandas\<close> either raises or returns
  \<^verbatim>\<open>(success, nchunks, nrows, _)\<close>; \<open>LoadReturns success nchunks nrows rows\<close> also names the
  rows that the call has left in the temporary table.
\<close>

datatype load_outcome =
    LoadRaises py_error
  | LoadReturns bool nat nat "row list"

record storage =
  connect_error :: "py_error option"
  create_temp_error :: "py_error option"
  write_pandas :: "commit_record list \<Rightarrow> load_outcome"
  merge_error :: "py_error option"
  close_error :: "py_error option"

fun staged_rows :: "load_outcome \<Rightarrow> row list" where
  "staged_rows (LoadRaises e) = []"
| "staged_rows (LoadReturns success nchunks nrows rows) = rows"

text \<open>
  What the function prints at its end:
  \<^verbatim>\<open>DataFrame successfully written to SCROLLSTATS_GIT_COMMITS. Rows inserted: {nrows}\<close>
  or \<^verbatim>\<open>Failed to write DataFrame to Snowflake.\<close>
\<close>

datatype report = RowsInserted nat | FailedToWrite

text \<open>
  \<^verbatim>\<open>increment_table(df)\<close>, on the permanent table \<open>T\<close>; it returns the table afterwards
  and either the exception that left the function or what it printed. A data frame is
  the list of its rows; the renaming of its columns to upper case, the first statement of
  the function, leaves the rows as they are. A statement that raises changes no table,
  and each statement is committed on its own, so that an exception while closing leaves
  the merge in place. The merge statement is executed before \<^verbatim>\<open>success\<close> is looked at.
\<close>

definition increment_table ::
  "storage \<Rightarrow> commit_record list \<Rightarrow> table \<Rightarrow> table \<times> (py_error + report)" where
  "increment_table st df T =
     (case connect_error st of
        Some e \<Rightarrow> (T, Inl e)
      | None \<Rightarrow>
          (case create_temp_error st of
             Some e \<Rightarrow> (T, Inl e)
           | None \<Rightarrow>
               (case write_pandas st df of
                  LoadRaises e \<Rightarrow> (T, Inl e)
                | LoadReturns success nchunks nrows rows \<Rightarrow>
                    (case merge_error st of
                       Some e \<Rightarrow> (T, Inl e)
                     | None \<Rightarrow>
                         (case close_error st of
                            Some e \<Rightarrow> (merge_query T rows, Inl e)
                          | None \<Rightarrow>
                              (merge_query T rows,
                               Inr (if success then RowsInserted nrows
                                    else FailedToWrite)))))))"

text \<open>A row is free of NULL; the dedup key of a row.\<close>

definition no_null :: "row \<Rightarrow> bool" where
  "no_null r = (DATE r \<noteq> None \<and> USERNAME r \<noteq> None \<and> REPO_NAME r \<noteq> None)"

definition key :: "row \<Rightarrow> int option \<times> string option \<times> string option" where
  "key r = (DATE r, USERNAME r, REPO_NAME r)"

definition no_duplicate_keys :: "table \<Rightarrow> bool" where
  "no_duplicate_keys T = distinct (map key T)"

text \<open>A warehouse where nothing raises and the load leaves \<open>rows\<close> in the temporary table.\<close>

definition loads :: "bool \<Rightarrow> row list \<Rightarrow> storage" where
  "loads success rows =
     \<lparr>connect_error = None, create_temp_error = None,
      write_pandas = (\<lambda>df. LoadReturns success 1 (length rows) rows),
      merge_error = None, close_error = None\<rparr>"

definition row_of :: "int \<Rightarrow> string \<Rightarrow> string \<Rightarrow> row" where
  "row_of d u r = \<lparr>DATE = Some d, USERNAME = Some u, REPO_NAME = Some r\<rparr>"

section \<open>The collector and the run\<close>

record repo =
  OWNER :: string
  NAME :: string
  URL :: string

text \<open>
  The remote API as the tasks of one run see it: each task has its own sequence of
  responses and of clock readings (whatever the interleaving of the threads was).
\<close>

record api =
  serve :: "repo \<Rightarrow> nat \<Rightarrow> nat \<Rightarrow> py_error + response"
  clock_of :: "repo \<Rightarrow> nat \<Rightarrow> readings"

text \<open>
  \<^verbatim>\<open>future.result()\<close> of the task submitted for a repository: the list it returns, the
  exception it raises, or \<open>None\<close> when the task never finishes.
\<close>

definition fetch_task :: "api \<Rightarrow> repo \<Rightarrow> (py_error + commit_record list) option" where
  "fetch_task a r =
     map_option snd (fetch_commit_history (serve a r) (clock_of a r) (OWNER r) (NAME r))"

datatype log_line =
    CompletedSuccessfully string
  | GeneratedException string py_error

text \<open>
  The loop over \<^verbatim>\<open>as_completed(futures)\<close>, on the repositories in the order in which
  their futures complete. A result is appended to the global list \<^verbatim>\<open>dfs\<close>; an exception
  is caught and printed. Waiting for a task that never finishes never returns.
\<close>

fun collect ::
  "(repo \<Rightarrow> (py_error + commit_record list) option) \<Rightarrow> repo list \<Rightarrow>
   commit_record list list \<Rightarrow> log_line list \<Rightarrow>
   (commit_record list list \<times> log_line list) option" where
  "collect task [] dfs out = Some (dfs, out)"
| "collect task (r # rs) dfs out =
     (case task r of
        None \<Rightarrow> None
      | Some (Inr data) \<Rightarrow> collect task rs (dfs @ [data]) (out @ [CompletedSuccessfully (URL r)])
      | Some (Inl exc) \<Rightarrow> collect task rs dfs (out @ [GeneratedException (URL r) exc]))"

definition fetch_all_commit_histories ::
  "api \<Rightarrow> repo list \<Rightarrow> commit_record list list \<Rightarrow>
   (commit_record list list \<times> log_line list) option" where
  "fetch_all_commit_histories a completed dfs = collect (fetch_task a) completed dfs []"

text \<open>
  \<^verbatim>\<open>pd.concat(dfs, ignore_index=True)\<close> raises ValueError on an empty list and otherwise
  stacks the rows of the frames.
\<close>

definition pd_concat :: "commit_record list list \<Rightarrow> py_error + commit_record list" where
  "pd_concat dfs =
     (if dfs = [] then Inl (ValueError ''No objects to concatenate'') else Inr (concat dfs))"

text \<open>
  The last three statements of the script, from the repository list on: collect into the
  empty \<^verbatim>\<open>dfs\<close>, concatenate, merge. The result is the table afterwards, what the
  collector printed, and the exception or the report of the merge.
\<close>

definition run ::
  "api \<Rightarrow> storage \<Rightarrow> repo list \<Rightarrow> table \<Rightarrow>
   (table \<times> log_line list \<times> (py_error + report)) option" where
  "run a st completed T =
     (case fetch_all_commit_histories a completed [] of
        None \<Rightarrow> None
      | Some (dfs, out) \<Rightarrow>
          (case pd_concat dfs of
             Inl e \<Rightarrow> Some (T, out, Inl e)
           | Inr df \<Rightarrow>
               (case increment_table st df T of
                  (T', res) \<Rightarrow> Some (T', out, res))))"

text \<open>What each repository contributes to \<^verbatim>\<open>dfs\<close> and to the output.\<close>

definition contribution :: "api \<Rightarrow> repo \<Rightarrow> commit_record list list" where
  "contribution a r = (case fetch_task a r of Some (Inr data) \<Rightarrow> [data] | _ \<Rightarrow> [])"

definition log_of :: "api \<Rightarrow> repo \<Rightarrow> log_line list" where
  "log_of a r =
     (case fetch_task a r of
        Some (Inr data) \<Rightarrow> [CompletedSuccessfully (URL r)]
      | Some (Inl exc) \<Rightarrow> [GeneratedException (URL r) exc]
      | None \<Rightarrow> [])"

section \<open>Example inputs\<close>

text \<open>
  A server that answers the first two requests of a call with 403 (the first with a reset
  time of 160, the second without the header) and then serves one page with one commit;
  the clock reads 100 throughout, the interpreter has the default digit limit and
  \<^verbatim>\<open>time.sleep\<close> takes waits of up to 9223360000 seconds.
\<close>

definition limited_response :: "(string \<times> string) list \<Rightarrow> response" where
  "limited_response hs =
     \<lparr>status_code = 403, headers = hs, content = ''rate limit exceeded'',
      json_body = Inl (ValueError ''rate limit exceeded''), has_next = False\<rparr>"

definition limited_then_served :: "nat \<Rightarrow> nat \<Rightarrow> py_error + response" where
  "limited_then_served i page =
     (if i = 0 then Inr (limited_response [(''X-RateLimit-Reset'', ''160'')])
      else if i = 1 then Inr (limited_response [])
      else paged_source [[(JStr ''2024-05-01T10:00:00Z'', JStr ''ann'')]] i page)"

definition steady_clock :: "nat \<Rightarrow> readings" where
  "steady_clock i =
     \<lparr>now1 = 100, now2 = 100, sleep_max = 9223360000, int_max_str_digits = 4300\<rparr>"

text \<open>
  A server that answers the first request with 403 and a reset value that is no number,
  and would serve the page on the next request.
\<close>

definition malformed_limit_then_served :: "nat \<Rightarrow> nat \<Rightarrow> py_error + response" where
  "malformed_limit_then_served i page =
     (if i = 0 then Inr (limited_response [(''X-RateLimit-Reset'', ''soon'')])
      else paged_source [[(JStr ''2024-05-01T10:00:00Z'', JStr ''ann'')]] i page)"

text \<open>A server whose second page is answered with status 500.\<close>

definition second_page_fails :: "nat \<Rightarrow> nat \<Rightarrow> py_error + response" where
  "second_page_fails i page =
     (if page = 1
      then Inr (page_response [(JStr ''2024-05-01T10:00:00Z'', JStr ''ann'')] True)
      else Inr (plain_response 500 ''boom''))"

definition always_fails :: "nat \<Rightarrow> nat \<Rightarrow> py_error + response" where
  "always_fails i page = Inr (plain_response 500 ''boom'')"

text \<open>Two repositories: the API serves one commit for the first and fails for the second.\<close>

definition good_repo :: repo where
  "good_repo = \<lparr>OWNER = ''a'', NAME = ''b'', URL = ''https://github.com/a/b''\<rparr>"

definition bad_repo :: repo where
  "bad_repo = \<lparr>OWNER = ''c'', NAME = ''d'', URL = ''https://github.com/c/d''\<rparr>"

definition demo_api :: api where
  "demo_api =
     \<lparr>serve = (\<lambda>r. if NAME r = ''b''
                     then paged_source [[(JStr ''2024-05-01T10:00:00Z'', JStr ''ann'')]]
                     else always_fails),
      clock_of = (\<lambda>r. steady_clock)\<rparr>"

definition ann_record :: commit_record where
  "ann_record =
     \<lparr>date = JStr ''2024-05-01T10:00:00Z'', username = JStr ''ann'', repo_name = ''a/b''\<rparr>"

section \<open>Properties of the rate limiter\<close>

lemma py_int_error: "py_int lim s = Inl e \<Longrightarrow> e = ValueError s"
  by (auto simp: py_int_def Let_def split: if_splits)

lemma wait_missing:
  "map_of hs ''X-RateLimit-Reset'' = None \<Longrightarrow> now1 rd \<le> now2 rd \<Longrightarrow>
   wait_for_rate_limit hs rd = Inr 0"
  by (simp add: wait_for_rate_limit_def max_def)

lemma wait_malformed:
  "map_of hs ''X-RateLimit-Reset'' = Some s \<Longrightarrow> py_int (int_max_str_digits rd) s = Inl e \<Longrightarrow>
   wait_for_rate_limit hs rd = Inl (ValueError s)"
  by (auto simp: wait_for_rate_limit_def dest: py_int_error)

lemmas eval_py_int =
  py_int_def too_many_digits_def strip_def is_space_def is_digit_def digits_value_def
  digit_val_def

text \<open>
  C7, as the specification states it: whatever the headers, the limiter does not raise.
  It does not hold: a reset value that is not an integer literal reaches \<^verbatim>\<open>int\<close>
  unguarded, and the ValueError leaves the function.
\<close>

theorem wait_for_rate_limit_raises:
  "wait_for_rate_limit [(''X-RateLimit-Reset'', ''soon'')] (steady_clock 0)
   = Inl (ValueError ''soon'')"
  by (simp add: wait_for_rate_limit_def steady_clock_def eval_py_int)

text \<open>
  C7, amended: when the header \<^verbatim>\<open>X-RateLimit-Reset\<close> is missing, the limiter takes the
  current time as the reset time, does not raise, and sleeps for zero seconds provided
  the clock has not stepped back between its two readings; when the header is present
  and \<^verbatim>\<open>int\<close> rejects its value, the limiter raises that ValueError.
\<close>

theorem wait_for_rate_limit_missing_or_malformed:
  "(map_of hs ''X-RateLimit-Reset'' = None \<and> now1 rd \<le> now2 rd \<longrightarrow>
      wait_for_rate_limit hs rd = Inr 0)
   \<and> (map_of hs ''X-RateLimit-Reset'' = Some s \<and> py_int (int_max_str_digits rd) s = Inl e \<longrightarrow>
      wait_for_rate_limit hs rd = Inl (ValueError s))"
  by (simp add: wait_missing wait_malformed)

text \<open>
  Values that \<^verbatim>\<open>int\<close> rejects: a float literal, a number behind the separator 28, and a
  literal of 4301 digits under the default limit.
\<close>

lemma py_int_rejects:
  "py_int 4300 ''1.5e9'' = Inl (ValueError ''1.5e9'')"
  "py_int 4300 (CHR 0x1C # ''160'') = Inl (ValueError (CHR 0x1C # ''160''))"
  "py_int 4300 (replicate 4301 (CHR ''1'')) = Inl (ValueError (replicate 4301 (CHR ''1'')))"
  by (simp_all add: eval_py_int Let_def)

lemma py_int_accepts:
  "py_int 4300 ''160'' = Inr 160"
  "py_int 4300 (CHR 0x85 # ''+1_60'' @ [CHR 0xA0, CHR 0x09]) = Inr 160"
  "py_int 4300 '' -42 '' = Inr (- 42)"
  by (simp_all add: eval_py_int)

theorem wait_for_rate_limit_missing_or_malformed_witness:
  "wait_for_rate_limit [(''Retry-After'', ''60'')]
     \<lparr>now1 = 100, now2 = 101, sleep_max = 9223360000, int_max_str_digits = 4300\<rparr> = Inr 0
   \<and> wait_for_rate_limit [(''X-RateLimit-Reset'', ''1.5e9'')]
       \<lparr>now1 = 100, now2 = 101, sleep_max = 9223360000, int_max_str_digits = 4300\<rparr>
     = Inl (ValueError ''1.5e9'')
   \<and> wait_for_rate_limit [(''X-RateLimit-Reset'', CHR 0x1C # ''160'')]
       \<lparr>now1 = 100, now2 = 101, sleep_max = 9223360000, int_max_str_digits = 4300\<rparr>
     = Inl (ValueError (CHR 0x1C # ''160''))"
  using py_int_rejects(1,2)
    wait_for_rate_limit_missing_or_malformed
      [of "[(''Retry-After'', ''60'')]"
          "\<lparr>now1 = 100, now2 = 101, sleep_max = 9223360000, int_max_str_digits = 4300\<rparr>"
          "''1.5e9''" "ValueError ''1.5e9''"]
    wait_for_rate_limit_missing_or_malformed
      [of "[(''X-RateLimit-Reset'', ''1.5e9'')]"
          "\<lparr>now1 = 100, now2 = 101, sleep_max = 9223360000, int_max_str_digits = 4300\<rparr>"
          "''1.5e9''" "ValueError ''1.5e9''"]
    wait_for_rate_limit_missing_or_malformed
      [of "[(''X-RateLimit-Reset'', CHR 0x1C # ''160'')]"
          "\<lparr>now1 = 100, now2 = 101, sleep_max = 9223360000, int_max_str_digits = 4300\<rparr>"
          "CHR 0x1C # ''160''" "ValueError (CHR 0x1C # ''160'')"]
  by simp

text \<open>A reset time too far away for \<^verbatim>\<open>time.sleep\<close> makes the limiter raise as well.\<close>

lemma wait_too_long:
  "wait_for_rate_limit [(''X-RateLimit-Reset'', ''99999999999999999999'')] (steady_clock 0)
   = Inl (SleepError 99999999999999999899)"
  by (simp add: wait_for_rate_limit_def steady_clock_def eval_py_int)

section \<open>Properties of the fetch loop\<close>

lemmas fetch_pages_induct =
  fetch_pages.raw_induct [rotated 1, consumes 1, case_names step]

text \<open>Every iteration that the loop starts begins with a request for its current page.\<close>

lemma trace_starts_with_request:
  assumes "fetch_pages server clock owner repo i page acc tr = Some y"
  shows "\<exists>rest. fst y = tr @ Request page # rest"
  using assms
proof (induct rule: fetch_pages_induct)
  case (step f server clock owner repo i page commit_history tr y)
  from step(2) show ?case
    by (fastforce split: sum.splits if_splits dest: step(1))
qed

subsection \<open>Pagination\<close>

lemma to_record_commit_json:
  "to_record owner repo (commit_json d n) = Inr (record_of_pair owner repo (d, n))"
  by (simp add: to_record_def author_field_def commit_json_def record_of_pair_def)

lemma map_raise_map:
  "(\<And>x. x \<in> set xs \<Longrightarrow> f (h x) = Inr (g x)) \<Longrightarrow> map_raise f (map h xs) = Inr (map g xs)"
  by (induction xs) simp_all

lemma records_of_page:
  "records_of owner repo (JArr (map (\<lambda>dn. commit_json (fst dn) (snd dn)) items))
     = Inr (map (record_of_pair owner repo) items)"
  by (simp add: records_of_def map_raise_map to_record_commit_json)

lemma drop_page:
  "1 \<le> page \<Longrightarrow> page \<le> length pages \<Longrightarrow>
   drop (page - 1) pages = pages ! (page - 1) # drop page pages"
  by (cases page) (simp_all add: Cons_nth_drop_Suc)

lemma drop_last_page:
  "1 \<le> length pages \<Longrightarrow> drop (length pages - 1) pages = [pages ! (length pages - 1)]"
  using drop_page [of "length pages" pages] by simp

text \<open>From any page of the source on, the loop reads that page and all later ones.\<close>

lemma fetch_pages_paged_source:
  assumes "1 \<le> page" "page \<le> length pages"
  shows "fetch_pages (paged_source pages) clock owner repo i page acc tr
         = Some (tr @ map Request [page..<Suc (length pages)],
                 Inr (acc @ concat (map (map (record_of_pair owner repo))
                                      (drop (page - 1) pages))))"
  using assms
proof (induction "length pages - page" arbitrary: page i acc tr)
  case 0
  then have last: "page = length pages" by simp
  have d: "drop (length pages - Suc 0) pages = [pages ! (length pages - Suc 0)]"
    using 0 last drop_last_page by simp
  show ?case
    using 0
    by (subst fetch_pages.simps)
       (simp add: paged_source_def page_response_def records_of_page last d)
next
  case (Suc n)
  then have lt: "page < length pages" by simp
  have d: "drop (page - Suc 0) pages = pages ! (page - Suc 0) # drop page pages"
    using Suc.prems drop_page by simp
  have IH: "fetch_pages (paged_source pages) clock owner repo (Suc i) (Suc page)
              (acc @ map (record_of_pair owner repo) (pages ! (page - 1))) (tr @ [Request page])
            = Some ((tr @ [Request page]) @ map Request [Suc page..<Suc (length pages)],
                 Inr ((acc @ map (record_of_pair owner repo) (pages ! (page - 1)))
                      @ concat (map (map (record_of_pair owner repo))
                                  (drop (Suc page - 1) pages))))"
    using Suc.hyps(2) lt by (intro Suc.hyps(1)) simp_all
  have up: "[page..<Suc (length pages)] = page # [Suc page..<Suc (length pages)]"
    using lt by (simp add: upt_conv_Cons)
  show ?case
    using Suc.prems lt IH
    by (subst fetch_pages.simps)
       (simp add: paged_source_def page_response_def records_of_page d up del: upt_Suc)
qed

text \<open>
  C3: on a synthetic source of \<open>K\<close> pages, \<^verbatim>\<open>fetch_commit_history\<close> returns, and
  returns the records of pages 1 to \<open>K\<close> in order, each commit mapped to its date, its
  author name and \<^verbatim>\<open>owner/name\<close>; it requests exactly the pages 1 to \<open>K\<close> (page 1 alone
  when \<open>K = 0\<close>, where the result is the empty list).
\<close>

theorem fetch_commit_history_all_pages:
  "fetch_commit_history (paged_source pages) clock owner repo
   = Some (map Request [1..<Suc (max 1 (length pages))],
           Inr (concat (map (map (record_of_pair owner repo)) pages)))"
proof (cases "pages = []")
  case True
  then show ?thesis
    unfolding fetch_commit_history_def
    by (subst fetch_pages.simps) (simp add: paged_source_def page_response_def records_of_def)
next
  case False
  then have "1 \<le> length pages" by (cases pages) simp_all
  then show ?thesis
    unfolding fetch_commit_history_def
    by (simp add: fetch_pages_paged_source max_def del: upt_Suc)
qed

theorem fetch_commit_history_all_pages_witness:
  "fetch_commit_history (paged_source []) steady_clock ''a'' ''b'' = Some ([Request 1], Inr [])
   \<and> fetch_commit_history
       (paged_source [[(JStr ''d1'', JStr ''ann''), (JStr ''d2'', JNull)], [(JStr ''d3'', JStr ''bob'')]])
       steady_clock ''a'' ''b''
     = Some ([Request 1, Request 2],
             Inr [\<lparr>date = JStr ''d1'', username = JStr ''ann'', repo_name = ''a/b''\<rparr>,
                  \<lparr>date = JStr ''d2'', username = JNull, repo_name = ''a/b''\<rparr>,
                  \<lparr>date = JStr ''d3'', username = JStr ''bob'', repo_name = ''a/b''\<rparr>])"
  using fetch_commit_history_all_pages [of "[]" steady_clock "''a''" "''b''"]
    fetch_commit_history_all_pages
      [of "[[(JStr ''d1'', JStr ''ann''), (JStr ''d2'', JNull)], [(JStr ''d3'', JStr ''bob'')]]"
          steady_clock "''a''" "''b''"]
  by (simp add: record_of_pair_def upt_conv_Cons del: upt_Suc)

subsection \<open>Quota exhaustion\<close>

lemma fetch_pages_throttled:
  assumes "server i page = Inr r" "status_code r = 403"
    and "wait_for_rate_limit (headers r) (clock i) = Inr s"
  shows "fetch_pages server clock owner repo i page acc tr
         = fetch_pages server clock owner repo (Suc i) page acc
             (tr @ [Request page, RateLimitWait (headers r) s, Delay 1])"
  using assms by (subst fetch_pages.simps) simp

text \<open>When the limiter itself raises on a 403 response, that exception ends the fetch.\<close>

lemma fetch_pages_limiter_raises:
  assumes "server i page = Inr r" "status_code r = 403"
    and "wait_for_rate_limit (headers r) (clock i) = Inl e"
  shows "fetch_pages server clock owner repo i page acc tr = Some (tr @ [Request page], Inl e)"
  using assms by (subst fetch_pages.simps) simp

lemma fetch_pages_throttled_n:
  assumes "\<forall>j<n. server (i + j) page = Inr (rs j) \<and> status_code (rs j) = 403 \<and>
             wait_for_rate_limit (headers (rs j)) (clock (i + j))
               = Inr (ss j)"
  shows "fetch_pages server clock owner repo i page acc tr
         = fetch_pages server clock owner repo (i + n) page acc
             (tr @ concat (map (\<lambda>j. [Request page, RateLimitWait (headers (rs j)) (ss j), Delay 1])
                            [0..<n]))"
  using assms
proof (induction n arbitrary: i tr rs ss)
  case 0
  then show ?case by simp
next
  case (Suc n)
  let ?ev = "\<lambda>j. [Request page, RateLimitWait (headers (rs j)) (ss j), Delay 1]"
  have first: "server i page = Inr (rs 0)" "status_code (rs 0) = 403"
    "wait_for_rate_limit (headers (rs 0)) (clock i) = Inr (ss 0)"
    using Suc.prems by force+
  have later: "\<forall>j<n. server (Suc i + j) page = Inr (rs (Suc j)) \<and> status_code (rs (Suc j)) = 403 \<and>
             wait_for_rate_limit (headers (rs (Suc j))) (clock (Suc i + j)) = Inr (ss (Suc j))"
    using Suc.prems by force
  have "fetch_pages server clock owner repo i page acc tr
        = fetch_pages server clock owner repo (Suc i) page acc (tr @ ?ev 0)"
    using first by (rule fetch_pages_throttled)
  also have "\<dots> = fetch_pages server clock owner repo (Suc i + n) page acc
             ((tr @ ?ev 0) @ concat (map (\<lambda>j. ?ev (Suc j)) [0..<n]))"
    using later by (rule Suc.IH)
  also have "(tr @ ?ev 0) @ concat (map (\<lambda>j. ?ev (Suc j)) [0..<n])
             = tr @ concat (map ?ev [0..<Suc n])"
  proof -
    have "[0..<Suc n] = 0 # map Suc [0..<n]"
      by (simp add: upt_conv_Cons map_Suc_upt del: upt_Suc)
    then show ?thesis by (simp add: comp_def del: upt_Suc)
  qed
  finally show ?case by simp
qed

text \<open>
  C4, as the specification states it: whenever a page request returns 403, the limiter is
  invoked and the same page is requested again. It does not hold when the limiter raises:
  on a 403 whose reset value is no number the ValueError of the limiter leaves
  \<^verbatim>\<open>fetch_commit_history\<close>, and the page, which the next request would have got, is not
  requested again.
\<close>

theorem limiter_exception_ends_fetch:
  "fetch_commit_history malformed_limit_then_served steady_clock ''a'' ''b''
   = Some ([Request 1], Inl (ValueError ''soon''))"
  unfolding fetch_commit_history_def
  by (subst fetch_pages.simps)
     (simp add: malformed_limit_then_served_def limited_response_def wait_for_rate_limit_def
        steady_clock_def eval_py_int)

text \<open>
  C4, amended: let the requests \<open>i, \<dots>, i + n - 1\<close> for \<open>page\<close> be answered with 403, by the
  responses \<open>rs 0, \<dots>, rs (n - 1)\<close>, and let the limiter, invoked on the headers of each of
  these responses, return. Then after the \<open>n\<close> rounds the loop is in the state it started
  from but for the request count: same page number, same accumulated records. If the
  fetch returns at all, the event that follows the \<open>n\<close> rounds is a request for that same
  page.
\<close>

theorem retry_same_page_after_403:
  assumes "\<forall>j<n. server (i + j) page = Inr (rs j) \<and> status_code (rs j) = 403 \<and>
             wait_for_rate_limit (headers (rs j)) (clock (i + j))
               = Inr (ss j)"
  shows "fetch_pages server clock owner repo i page acc tr
         = fetch_pages server clock owner repo (i + n) page acc
             (tr @ concat (map (\<lambda>j. [Request page, RateLimitWait (headers (rs j)) (ss j), Delay 1])
                            [0..<n]))
       \<and> (\<forall>y. fetch_pages server clock owner repo i page acc tr = Some y \<longrightarrow>
            (\<exists>rest. fst y
               = tr @ concat (map (\<lambda>j. [Request page, RateLimitWait (headers (rs j)) (ss j), Delay 1])
                                [0..<n])
                 @ Request page # rest))"
proof (intro conjI allI impI)
  let ?tr' = "tr @ concat (map (\<lambda>j. [Request page, RateLimitWait (headers (rs j)) (ss j), Delay 1])
                             [0..<n])"
  show eq: "fetch_pages server clock owner repo i page acc tr
            = fetch_pages server clock owner repo (i + n) page acc ?tr'"
    using assms by (rule fetch_pages_throttled_n)
  fix y
  assume "fetch_pages server clock owner repo i page acc tr = Some y"
  then have "fetch_pages server clock owner repo (i + n) page acc ?tr' = Some y"
    using eq by simp
  then have "\<exists>rest. fst y = ?tr' @ Request page # rest"
    by (rule trace_starts_with_request)
  then show "\<exists>rest. fst y
               = tr @ concat (map (\<lambda>j. [Request page, RateLimitWait (headers (rs j)) (ss j), Delay 1])
                                [0..<n])
                 @ Request page # rest"
    by simp
qed

lemma wait_160:
  "wait_for_rate_limit [(''X-RateLimit-Reset'', ''160'')] (steady_clock i) = Inr 60"
  by (simp add: wait_for_rate_limit_def steady_clock_def eval_py_int)

lemma wait_none: "wait_for_rate_limit [] (steady_clock i) = Inr 0"
  by (simp add: wait_for_rate_limit_def steady_clock_def)

theorem retry_same_page_after_403_witness:
  "fetch_commit_history limited_then_served steady_clock ''a'' ''b''
   = Some ([Request 1, RateLimitWait [(''X-RateLimit-Reset'', ''160'')] 60, Delay 1,
            Request 1, RateLimitWait [] 0, Delay 1,
            Request 1],
           Inr [ann_record])"
proof -
  let ?rs = "\<lambda>j::nat. limited_response (if j = 0 then [(''X-RateLimit-Reset'', ''160'')] else [])"
  let ?ss = "\<lambda>j::nat. if j = 0 then 60 else (0::nat)"
  have hyp: "\<forall>j<2. limited_then_served (0 + j) 1 = Inr (?rs j) \<and> status_code (?rs j) = 403 \<and>
               wait_for_rate_limit (headers (?rs j)) (steady_clock (0 + j)) = Inr (?ss j)"
    by (simp add: less_2_cases_iff limited_then_served_def limited_response_def
        wait_160 wait_none)
  have "fetch_pages limited_then_served steady_clock ''a'' ''b'' 0 1 [] []
        = fetch_pages limited_then_served steady_clock ''a'' ''b'' (0 + 2) 1 []
            ([] @ concat (map (\<lambda>j. [Request 1, RateLimitWait (headers (?rs j)) (?ss j), Delay 1])
                            [0..<2]))"
    using hyp
      retry_same_page_after_403
        [where n = 2 and server = limited_then_served and i = 0 and page = 1 and rs = "?rs"
           and ss = "?ss" and clock = steady_clock and owner = "''a''" and repo = "''b''"
           and acc = "[]" and tr = "[]"]
    by blast
  also have "\<dots> = fetch_pages limited_then_served steady_clock ''a'' ''b'' 2 1 []
                    [Request 1, RateLimitWait [(''X-RateLimit-Reset'', ''160'')] 60, Delay 1,
                     Request 1, RateLimitWait [] 0, Delay 1]"
    by (simp add: limited_response_def upt_conv_Cons numeral_2_eq_2 del: upt_Suc)
  also have "\<dots> = Some ([Request 1, RateLimitWait [(''X-RateLimit-Reset'', ''160'')] 60, Delay 1,
                          Request 1, RateLimitWait [] 0, Delay 1, Request 1],
                         Inr [ann_record])"
    by (subst fetch_pages.simps)
       (simp add: limited_then_served_def paged_source_def page_response_def records_of_def
          to_record_commit_json record_of_pair_def ann_record_def)
  finally show ?thesis by (simp add: fetch_commit_history_def)
qed

subsection \<open>Other failures\<close>

lemma fetch_pages_next_page:
  assumes "server i page = Inr r" "status_code r = 200" "json_body r = Inr data"
    and "records_of owner repo data = Inr recs" "has_next r"
  shows "fetch_pages server clock owner repo i page acc tr
         = fetch_pages server clock owner repo (Suc i) (Suc page) (acc @ recs) (tr @ [Request page])"
  using assms by (subst fetch_pages.simps) simp

text \<open>
  C5, as the specification states it: the error of a failed fetch carries the identity of
  the repository. It does not: the exception is built from the response content alone,
  so on the same answer the fetches of two different repositories raise the same error.
\<close>

theorem fetch_error_without_repository:
  "fetch_commit_history always_fails steady_clock ''a'' ''b''
     = Some ([Request 1], Inl (FetchFailed ''boom''))
   \<and> fetch_commit_history always_fails steady_clock ''c'' ''d''
     = Some ([Request 1], Inl (FetchFailed ''boom''))"
  unfolding fetch_commit_history_def
  by (subst fetch_pages.simps, subst (2) fetch_pages.simps)
     (simp add: always_fails_def plain_response_def)

text \<open>
  C5, amended: on a response whose status is neither 403 nor 200 the fetch ends at once
  with an error that carries the response content (and nothing else); it returns none of
  the records accumulated from earlier pages and requests nothing further.
\<close>

theorem fetch_fails_without_partial_results:
  assumes "server i page = Inr r" "status_code r \<noteq> 403" "status_code r \<noteq> 200"
  shows "fetch_pages server clock owner repo i page acc tr
         = Some (tr @ [Request page], Inl (FetchFailed (content r)))"
  using assms by (subst fetch_pages.simps) simp

theorem fetch_fails_without_partial_results_witness:
  "fetch_commit_history second_page_fails steady_clock ''a'' ''b''
   = Some ([Request 1, Request 2], Inl (FetchFailed ''boom''))"
proof -
  have "fetch_pages second_page_fails steady_clock ''a'' ''b'' 0 1 [] []
        = fetch_pages second_page_fails steady_clock ''a'' ''b'' 1 2 [ann_record] [Request 1]"
    by (subst fetch_pages.simps)
       (simp add: second_page_fails_def page_response_def records_of_def to_record_commit_json
          record_of_pair_def ann_record_def numeral_2_eq_2)
  moreover have "second_page_fails 1 2 = Inr (plain_response 500 ''boom'')"
    by (simp add: second_page_fails_def)
  then have "fetch_pages second_page_fails steady_clock ''a'' ''b'' 1 2 [ann_record] [Request 1]
        = Some ([Request 1] @ [Request 2], Inl (FetchFailed (content (plain_response 500 ''boom''))))"
    by (rule fetch_fails_without_partial_results) (simp_all add: plain_response_def)
  ultimately show ?thesis
    by (simp add: fetch_commit_history_def plain_response_def)
qed

section \<open>Properties of the merge\<close>

lemma sql_and_true: "sql_and a b = Some True \<longleftrightarrow> a = Some True \<and> b = Some True"
  by (cases a; cases b) (auto split: bool.splits elim: sql_and.elims)

lemma sql_eq_true: "sql_eq a b = Some True \<longleftrightarrow> a \<noteq> None \<and> a = b"
  by (cases a; cases b) auto

text \<open>Two rows match in the merge condition exactly when they have the same NULL-free key.\<close>

lemma key_match_true_iff: "key_match t s = Some True \<longleftrightarrow> no_null t \<and> key t = key s"
  by (auto simp: key_match_def no_null_def key_def sql_and_true sql_eq_true)

lemma key_match_self: "no_null r \<Longrightarrow> key_match r r = Some True"
  by (simp add: key_match_true_iff)

lemma sql_exists_iff: "sql_exists T s \<longleftrightarrow> (\<exists>t\<in>set T. key_match t s = Some True)"
  by (simp add: sql_exists_def list_ex_iff)

lemma sql_exists_append: "sql_exists (T @ U) s \<longleftrightarrow> sql_exists T s \<or> sql_exists U s"
  by (auto simp: sql_exists_iff)

lemma new_rows_after_merge:
  assumes "\<forall>r\<in>set staged. no_null r"
  shows "new_rows (merge_query T staged) staged = []"
proof -
  have "sql_exists (merge_query T staged) s" if "s \<in> set staged" for s
  proof (cases "sql_exists T s")
    case True
    then show ?thesis by (simp add: merge_query_def sql_exists_append)
  next
    case False
    with that have "s \<in> set (new_rows T staged)" by (simp add: new_rows_def)
    moreover have "key_match s s = Some True" using assms that by (simp add: key_match_self)
    ultimately have "sql_exists (new_rows T staged) s" by (auto simp: sql_exists_iff)
    then show ?thesis by (simp add: merge_query_def sql_exists_append)
  qed
  then show ?thesis by (simp add: new_rows_def)
qed

lemma merge_query_idem:
  "\<forall>r\<in>set staged. no_null r \<Longrightarrow>
   merge_query (merge_query T staged) staged = merge_query T staged"
  using new_rows_after_merge [of staged T]
  by (simp add: merge_query_def [of "merge_query T staged"])

subsection \<open>What a call does to the table\<close>

lemma table_after:
  "fst (increment_table st df T) = T \<or>
   fst (increment_table st df T) = merge_query T (staged_rows (write_pandas st df))"
  by (auto simp: increment_table_def split: option.splits load_outcome.splits)

lemma table_after_return:
  "snd (increment_table st df T) = Inr rep \<Longrightarrow>
   fst (increment_table st df T) = merge_query T (staged_rows (write_pandas st df))"
  by (auto simp: increment_table_def split: option.splits load_outcome.splits)

text \<open>Whether a call reaches the merge statement does not depend on the table.\<close>

lemma table_after_uniform:
  "(\<forall>T. fst (increment_table st df T) = T) \<or>
   (\<forall>T. fst (increment_table st df T) = merge_query T (staged_rows (write_pandas st df)))"
  by (auto simp: increment_table_def split: option.splits load_outcome.splits)

lemmas eval_merge =
  increment_table_def loads_def merge_query_def new_rows_def sql_exists_def key_match_def
  row_of_def

subsection \<open>Idempotence\<close>

text \<open>
  C1, as the specification states it: for every batch, merging it a second time inserts
  nothing. It does not hold for a batch with a NULL in a key column: the comparison of
  the merge condition is never true on NULL, so the row is absent from the table as far
  as \<^verbatim>\<open>NOT EXISTS\<close> can tell, and every run inserts it again.
\<close>

theorem merge_twice_duplicates_null_row:
  "fst (increment_table (loads True [\<lparr>DATE = Some 0, USERNAME = None, REPO_NAME = Some ''a/b''\<rparr>])
          [\<lparr>date = JStr ''1970-01-01T00:00:00Z'', username = JNull, repo_name = ''a/b''\<rparr>] [])
     = [\<lparr>DATE = Some 0, USERNAME = None, REPO_NAME = Some ''a/b''\<rparr>]
   \<and> fst (increment_table (loads True [\<lparr>DATE = Some 0, USERNAME = None, REPO_NAME = Some ''a/b''\<rparr>])
          [\<lparr>date = JStr ''1970-01-01T00:00:00Z'', username = JNull, repo_name = ''a/b''\<rparr>]
          (fst (increment_table
             (loads True [\<lparr>DATE = Some 0, USERNAME = None, REPO_NAME = Some ''a/b''\<rparr>])
             [\<lparr>date = JStr ''1970-01-01T00:00:00Z'', username = JNull, repo_name = ''a/b''\<rparr>] [])))
     = [\<lparr>DATE = Some 0, USERNAME = None, REPO_NAME = Some ''a/b''\<rparr>,
        \<lparr>DATE = Some 0, USERNAME = None, REPO_NAME = Some ''a/b''\<rparr>]"
  by (simp add: eval_merge)

text \<open>
  C1, amended: for every batch whose staged rows have no NULL in \<^verbatim>\<open>DATE\<close>,
  \<^verbatim>\<open>USERNAME\<close> and \<^verbatim>\<open>REPO_NAME\<close>, and for every permanent table, merging the batch twice
  leaves the table as merging it once does; when the first call returns, the rows that
  the second call selects for insertion are none.
\<close>

theorem merge_twice_is_merge_once:
  assumes "\<forall>r\<in>set (staged_rows (write_pandas st df)). no_null r"
  shows "fst (increment_table st df (fst (increment_table st df T)))
           = fst (increment_table st df T)
       \<and> (\<forall>rep. snd (increment_table st df T) = Inr rep \<longrightarrow>
            new_rows (fst (increment_table st df T)) (staged_rows (write_pandas st df)) = [])"
proof -
  let ?S = "staged_rows (write_pandas st df)"
  have "fst (increment_table st df (fst (increment_table st df T)))
          = fst (increment_table st df T)"
    using table_after_uniform [of st df] assms by (auto simp: merge_query_idem)
  moreover have "new_rows (fst (increment_table st df T)) ?S = []"
    if "snd (increment_table st df T) = Inr rep" for rep
    using table_after_return [OF that] assms by (simp add: new_rows_after_merge)
  ultimately show ?thesis by blast
qed

theorem merge_twice_is_merge_once_witness:
  "fst (increment_table (loads True [row_of 5 ''ann'' ''a/b'', row_of 7 ''bob'' ''a/b''])
          [ann_record]
          (fst (increment_table (loads True [row_of 5 ''ann'' ''a/b'', row_of 7 ''bob'' ''a/b''])
                  [ann_record] [row_of 7 ''bob'' ''a/b''])))
     = [row_of 7 ''bob'' ''a/b'', row_of 5 ''ann'' ''a/b'']
   \<and> fst (increment_table (loads True [row_of 5 ''ann'' ''a/b'', row_of 7 ''bob'' ''a/b''])
          [ann_record] [row_of 7 ''bob'' ''a/b''])
     = [row_of 7 ''bob'' ''a/b'', row_of 5 ''ann'' ''a/b'']"
proof -
  let ?st = "loads True [row_of 5 ''ann'' ''a/b'', row_of 7 ''bob'' ''a/b'']"
  have hyp: "\<forall>r\<in>set (staged_rows (write_pandas ?st [ann_record])). no_null r"
    by (simp add: loads_def row_of_def no_null_def)
  have once: "fst (increment_table ?st [ann_record] [row_of 7 ''bob'' ''a/b''])
              = [row_of 7 ''bob'' ''a/b'', row_of 5 ''ann'' ''a/b'']"
    by (simp add: eval_merge)
  show ?thesis
    using merge_twice_is_merge_once [OF hyp, of "[row_of 7 ''bob'' ''a/b'']"] once by simp
qed

subsection \<open>Uniqueness of the key\<close>

lemma distinct_new_rows:
  "distinct (map key staged) \<Longrightarrow> distinct (map key (new_rows T staged))"
  by (simp add: new_rows_def distinct_map_filter)

lemma merge_query_distinct:
  assumes "no_duplicate_keys T" "no_duplicate_keys staged" "\<forall>r\<in>set staged. no_null r"
  shows "no_duplicate_keys (merge_query T staged)"
proof -
  have "key t \<noteq> key s" if "t \<in> set T" "s \<in> set (new_rows T staged)" for t s
  proof
    assume eq: "key t = key s"
    from that(2) have s: "s \<in> set staged" "\<not> sql_exists T s" by (simp_all add: new_rows_def)
    then have "no_null s" using assms(3) by simp
    then have "no_null t" using eq by (simp add: no_null_def key_def)
    then have "key_match t s = Some True" using eq by (simp add: key_match_true_iff)
    with that(1) s(2) show False by (auto simp: sql_exists_iff)
  qed
  then have "set (map key T) \<inter> set (map key (new_rows T staged)) = {}" by fastforce
  then show ?thesis
    using assms(1,2) distinct_new_rows [of staged T]
    by (simp add: no_duplicate_keys_def merge_query_def del: set_map)
qed

text \<open>
  C2, as the specification states it: the table has no two rows with the same key after
  every merge, also for a batch that repeats a key. It does not hold: the merge condition
  looks at the permanent table only, as it is before the statement, so two staged rows
  with the same new key are both inserted.
\<close>

theorem merge_inserts_duplicates_of_batch:
  "no_duplicate_keys []
   \<and> increment_table (loads True [row_of 5 ''ann'' ''a/b'', row_of 5 ''ann'' ''a/b''])
       [ann_record, ann_record] []
     = ([row_of 5 ''ann'' ''a/b'', row_of 5 ''ann'' ''a/b''], Inr (RowsInserted 2))
   \<and> \<not> no_duplicate_keys [row_of 5 ''ann'' ''a/b'', row_of 5 ''ann'' ''a/b'']"
  by (simp add: eval_merge no_duplicate_keys_def)

text \<open>
  C2, amended: for every permanent table without two rows of the same key and every batch
  whose staged rows have pairwise different keys and no NULL in a key column, the table
  after the merge call has no two rows of the same key.
\<close>

theorem merge_keeps_keys_unique:
  assumes "no_duplicate_keys T"
    and "no_duplicate_keys (staged_rows (write_pandas st df))"
    and "\<forall>r\<in>set (staged_rows (write_pandas st df)). no_null r"
  shows "no_duplicate_keys (fst (increment_table st df T))"
  using table_after [of st df T] assms merge_query_distinct by auto

theorem merge_keeps_keys_unique_witness:
  "no_duplicate_keys [row_of 7 ''bob'' ''a/b'']
   \<and> no_duplicate_keys [row_of 5 ''ann'' ''a/b'', row_of 7 ''bob'' ''a/b'']
   \<and> fst (increment_table (loads True [row_of 5 ''ann'' ''a/b'', row_of 7 ''bob'' ''a/b''])
          [ann_record] [row_of 7 ''bob'' ''a/b''])
     = [row_of 7 ''bob'' ''a/b'', row_of 5 ''ann'' ''a/b'']
   \<and> no_duplicate_keys [row_of 7 ''bob'' ''a/b'', row_of 5 ''ann'' ''a/b'']"
proof -
  let ?st = "loads True [row_of 5 ''ann'' ''a/b'', row_of 7 ''bob'' ''a/b'']"
  have table: "no_duplicate_keys [row_of 7 ''bob'' ''a/b'']"
    by (simp add: no_duplicate_keys_def)
  have batch: "no_duplicate_keys (staged_rows (write_pandas ?st [ann_record]))"
    by (simp add: loads_def no_duplicate_keys_def key_def row_of_def)
  have nonnull: "\<forall>r\<in>set (staged_rows (write_pandas ?st [ann_record])). no_null r"
    by (simp add: loads_def row_of_def no_null_def)
  have after: "fst (increment_table ?st [ann_record] [row_of 7 ''bob'' ''a/b''])
               = [row_of 7 ''bob'' ''a/b'', row_of 5 ''ann'' ''a/b'']"
    by (simp add: eval_merge)
  show ?thesis
    using merge_keeps_keys_unique [OF table batch nonnull] table batch after
    by (simp add: loads_def)
qed

subsection \<open>Failures of the staging steps\<close>

text \<open>
  C8, as the specification states it: whenever the bulk load fails, the call fails and
  the permanent table is untouched. It does not hold when \<^verbatim>\<open>write_pandas\<close> reports the
  failure in its result instead of raising: the merge statement has run before
  \<^verbatim>\<open>success\<close> is tested, over whatever the load left in the temporary table, and the
  call returns after printing the failure message.
\<close>

theorem merge_runs_after_failed_load:
  "increment_table (loads False [row_of 5 ''ann'' ''a/b'']) [ann_record, ann_record] []
   = ([row_of 5 ''ann'' ''a/b''], Inr FailedToWrite)"
  by (simp add: eval_merge)

text \<open>
  C8, amended: if the creation of the temporary table raises, or it succeeds and the bulk
  load raises, then the call raises that exception and the permanent table is as it was
  before the call.
\<close>

theorem staging_exception_leaves_table:
  assumes "connect_error st = None"
    and "create_temp_error st = Some e \<or>
         (create_temp_error st = None \<and> write_pandas st df = LoadRaises e)"
  shows "increment_table st df T = (T, Inl e)"
  using assms by (auto simp: increment_table_def)

theorem staging_exception_leaves_table_witness:
  "increment_table
     \<lparr>connect_error = None, create_temp_error = Some (ExternalError ''no privilege''),
      write_pandas = (\<lambda>df. LoadReturns True 1 1 [row_of 5 ''ann'' ''a/b'']),
      merge_error = None, close_error = None\<rparr>
     [ann_record] [row_of 7 ''bob'' ''a/b'']
   = ([row_of 7 ''bob'' ''a/b''], Inl (ExternalError ''no privilege''))
   \<and> increment_table
     \<lparr>connect_error = None, create_temp_error = None,
      write_pandas = (\<lambda>df. LoadRaises (ExternalError ''bad file'')),
      merge_error = None, close_error = None\<rparr>
     [ann_record] [row_of 7 ''bob'' ''a/b'']
   = ([row_of 7 ''bob'' ''a/b''], Inl (ExternalError ''bad file''))"
  using
    staging_exception_leaves_table
      [of "\<lparr>connect_error = None, create_temp_error = Some (ExternalError ''no privilege''),
            write_pandas = (\<lambda>df. LoadReturns True 1 1 [row_of 5 ''ann'' ''a/b'']),
            merge_error = None, close_error = None\<rparr>"
          "ExternalError ''no privilege''" "[ann_record]" "[row_of 7 ''bob'' ''a/b'']"]
    staging_exception_leaves_table
      [of "\<lparr>connect_error = None, create_temp_error = None,
            write_pandas = (\<lambda>df. LoadRaises (ExternalError ''bad file'')),
            merge_error = None, close_error = None\<rparr>"
          "ExternalError ''bad file''" "[ann_record]" "[row_of 7 ''bob'' ''a/b'']"]
  by simp

subsection \<open>The reported row count\<close>

lemma reported_count_is_loaded_count:
  "snd (increment_table st df T) = Inr (RowsInserted n) \<Longrightarrow>
   \<exists>c. write_pandas st df = LoadReturns True c n (staged_rows (write_pandas st df))"
  by (auto simp: increment_table_def split: option.splits load_outcome.splits if_splits)

text \<open>
  C9: the count that the call reports as inserted into the permanent table is the number
  of rows it inserted there. The code reports \<^verbatim>\<open>nrows\<close> of \<^verbatim>\<open>write_pandas\<close>, the number of
  rows loaded into the temporary table: merging one row that the table already holds
  reports 1 and inserts nothing.
\<close>

theorem reported_count_counts_staged_rows:
  "increment_table (loads True [row_of 5 ''ann'' ''a/b'']) [ann_record] [row_of 5 ''ann'' ''a/b'']
   = ([row_of 5 ''ann'' ''a/b''], Inr (RowsInserted 1))"
  by (simp add: eval_merge)

section \<open>Properties of the collector and of the run\<close>

text \<open>
  When every task finishes, the loop returns: each repository has added its contribution
  to \<^verbatim>\<open>dfs\<close> and its line to the output, in the order of completion.
\<close>

lemma collect_all:
  assumes "\<forall>r\<in>set rs. fetch_task a r \<noteq> None"
  shows "collect (fetch_task a) rs dfs out
         = Some (dfs @ concat (map (contribution a) rs), out @ concat (map (log_of a) rs))"
  using assms
proof (induction rs arbitrary: dfs out)
  case Nil
  then show ?case by simp
next
  case (Cons r rs)
  then obtain res where res: "fetch_task a r = Some res" by auto
  show ?case
  proof (cases res)
    case (Inl exc)
    with res Cons show ?thesis by (simp add: contribution_def log_of_def)
  next
    case (Inr data)
    with res Cons show ?thesis by (simp add: contribution_def log_of_def)
  qed
qed

lemma contribution_of_failure:
  "fetch_task a r = Some (Inl exc) \<Longrightarrow> contribution a r = []"
  by (simp add: contribution_def)

lemma contributions_without:
  assumes "contribution a r2 = []"
  shows "concat (map (contribution a) rs) = concat (map (contribution a) (removeAll r2 rs))"
  using assms by (induction rs) auto

lemma url_repos:
  "URL good_repo = ''https://github.com/a/b''" "URL bad_repo = ''https://github.com/c/d''"
  by (simp_all add: good_repo_def bad_repo_def)

text \<open>
  C6: let every task of the run finish, the one of \<open>r1\<close> with the records \<open>recs\<close> and the
  one of \<open>r2\<close> with the exception \<open>exc\<close>. Then the collector returns, in whatever order the
  tasks complete; \<open>r1\<close> has added its records to \<^verbatim>\<open>dfs\<close> and \<open>r2\<close> has added nothing, so
  that \<^verbatim>\<open>dfs\<close> is what it would be without \<open>r2\<close> in the run; \<open>r2\<close> is reported by one
  line that pairs its URL with its exception; and the frame that \<^verbatim>\<open>pd.concat\<close> builds
  for the merge holds all the records of \<open>r1\<close>.
\<close>

theorem failing_repository_is_isolated:
  assumes "\<forall>r\<in>set completed. fetch_task a r \<noteq> None"
    and "r1 \<in> set completed" "fetch_task a r1 = Some (Inr recs)"
    and "r2 \<in> set completed" "fetch_task a r2 = Some (Inl exc)"
  shows "fetch_all_commit_histories a completed []
           = Some (concat (map (contribution a) completed), concat (map (log_of a) completed))
       \<and> contribution a r1 = [recs] \<and> contribution a r2 = []
       \<and> concat (map (contribution a) completed)
           = concat (map (contribution a) (removeAll r2 completed))
       \<and> log_of a r1 = [CompletedSuccessfully (URL r1)]
       \<and> log_of a r2 = [GeneratedException (URL r2) exc]
       \<and> (\<exists>df. pd_concat (concat (map (contribution a) completed)) = Inr df
                \<and> set recs \<subseteq> set df)"
proof -
  have c1: "contribution a r1 = [recs]" using assms(3) by (simp add: contribution_def)
  have c2: "contribution a r2 = []" using assms(5) by (rule contribution_of_failure)
  have mem: "recs \<in> set (concat (map (contribution a) completed))"
    using assms(2) c1 by force
  then have "concat (map (contribution a) completed) \<noteq> []"
    by (metis empty_iff empty_set)
  moreover have "set recs \<subseteq> set (concat (concat (map (contribution a) completed)))"
    using mem by (metis Sup_upper image_eqI set_concat)
  ultimately have "\<exists>df. pd_concat (concat (map (contribution a) completed)) = Inr df
                  \<and> set recs \<subseteq> set df"
    by (simp add: pd_concat_def)
  then show ?thesis
    using collect_all [OF assms(1), of "[]" "[]"] c1 c2 contributions_without [OF c2] assms(3,5)
    by (simp add: fetch_all_commit_histories_def log_of_def)
qed

lemma fetch_task_good: "fetch_task demo_api good_repo = Some (Inr [ann_record])"
proof -
  have "fetch_commit_history (paged_source [[(JStr ''2024-05-01T10:00:00Z'', JStr ''ann'')]])
          steady_clock ''a'' ''b''
        = Some ([Request 1], Inr [ann_record])"
    unfolding fetch_commit_history_def
    by (subst fetch_pages.simps)
       (simp add: paged_source_def page_response_def records_of_def to_record_commit_json
          record_of_pair_def ann_record_def)
  then show ?thesis by (simp add: fetch_task_def demo_api_def good_repo_def)
qed

lemma fetch_task_bad: "fetch_task demo_api bad_repo = Some (Inl (FetchFailed ''boom''))"
proof -
  have "fetch_commit_history always_fails steady_clock ''c'' ''d''
        = Some ([Request 1], Inl (FetchFailed ''boom''))"
    unfolding fetch_commit_history_def
    by (subst fetch_pages.simps) (simp add: always_fails_def plain_response_def)
  then show ?thesis by (simp add: fetch_task_def demo_api_def bad_repo_def)
qed

theorem failing_repository_is_isolated_witness:
  "fetch_all_commit_histories demo_api [bad_repo, good_repo] []
     = Some ([[ann_record]],
             [GeneratedException ''https://github.com/c/d'' (FetchFailed ''boom''),
              CompletedSuccessfully ''https://github.com/a/b''])
   \<and> pd_concat [[ann_record]] = Inr [ann_record]"
proof -
  have all: "\<forall>r\<in>set [bad_repo, good_repo]. fetch_task demo_api r \<noteq> None"
    by (simp add: fetch_task_good fetch_task_bad)
  have "fetch_all_commit_histories demo_api [bad_repo, good_repo] []
        = Some (concat (map (contribution demo_api) [bad_repo, good_repo]),
                concat (map (log_of demo_api) [bad_repo, good_repo]))"
    using failing_repository_is_isolated
            [OF all _ fetch_task_good _ fetch_task_bad]
    by simp
  then show ?thesis
    by (simp add: contribution_def log_of_def fetch_task_good fetch_task_bad pd_concat_def
        url_repos)
qed

text \<open>
  C10: when every task of the run raises (in particular when there is no repository),
  \<^verbatim>\<open>dfs\<close> is still empty after the collector, \<^verbatim>\<open>pd.concat\<close> raises ValueError, and the run
  ends with that exception: \<^verbatim>\<open>increment_table\<close> is not reached, so the table is as
  before whatever the warehouse would have done.
\<close>

theorem run_without_success_raises:
  assumes "\<forall>r\<in>set completed. \<exists>exc. fetch_task a r = Some (Inl exc)"
  shows "run a st completed T
         = Some (T, concat (map (log_of a) completed),
                 Inl (ValueError ''No objects to concatenate''))"
proof -
  have fin: "\<forall>r\<in>set completed. fetch_task a r \<noteq> None" using assms by auto
  have none: "concat (map (contribution a) completed) = []"
    using assms by (auto simp: contribution_def)
  show ?thesis
    using collect_all [OF fin, of "[]" "[]"] none
    by (simp add: run_def fetch_all_commit_histories_def pd_concat_def)
qed

theorem run_without_success_raises_witness:
  "run demo_api (loads True [row_of 5 ''ann'' ''a/b'']) [] [row_of 7 ''bob'' ''a/b'']
     = Some ([row_of 7 ''bob'' ''a/b''], [], Inl (ValueError ''No objects to concatenate''))
   \<and> run demo_api (loads True [row_of 5 ''ann'' ''a/b'']) [bad_repo] [row_of 7 ''bob'' ''a/b'']
     = Some ([row_of 7 ''bob'' ''a/b''],
             [GeneratedException ''https://github.com/c/d'' (FetchFailed ''boom'')],
             Inl (ValueError ''No objects to concatenate''))"
proof -
  have none: "\<forall>r\<in>set []. \<exists>exc. fetch_task demo_api r = Some (Inl exc)" by simp
  have one: "\<forall>r\<in>set [bad_repo]. \<exists>exc. fetch_task demo_api r = Some (Inl exc)"
    by (simp add: fetch_task_bad)
  show ?thesis
    using run_without_success_raises [OF none, of "loads True [row_of 5 ''ann'' ''a/b'']"
            "[row_of 7 ''bob'' ''a/b'']"]
      run_without_success_raises [OF one, of "loads True [row_of 5 ''ann'' ''a/b'']"
            "[row_of 7 ''bob'' ''a/b'']"]
    by (simp add: log_of_def fetch_task_bad url_repos)
qed

text \<open>A run with one success does reach the merge.\<close>

lemma run_with_success:
  "run demo_api (loads True [row_of 5 ''ann'' ''a/b'']) [bad_repo, good_repo] []
   = Some ([row_of 5 ''ann'' ''a/b''],
           [GeneratedException ''https://github.com/c/d'' (FetchFailed ''boom''),
            CompletedSuccessfully ''https://github.com/a/b''],
           Inr (RowsInserted 1))"
proof -
  have all: "\<forall>r\<in>set [bad_repo, good_repo]. fetch_task demo_api r \<noteq> None"
    by (simp add: fetch_task_good fetch_task_bad)
  show ?thesis
    using collect_all [OF all, of "[]" "[]"]
    by (simp add: run_def fetch_all_commit_histories_def contribution_def log_of_def
        fetch_task_good fetch_task_bad pd_concat_def url_repos eval_merge)
qed

end
